theory Spec2Isabelle
  imports Complex_Main "HOL-Library.Word"
begin

section \<open>JavaScript values used by the detector\<close>

text \<open>
  The mobile vehicle detector (\<^verbatim>\<open>app/src/components/VehicleDetector.tsx\<close>, the gallery
  variant; the camera variant has the same loops and the same guard) is a React
  component. Its pixel buffers are \<^verbatim>\<open>Uint8Array\<close>s: a list of bytes.
\<close>

type_synonym u8 = "8 word"

text \<open>\<^verbatim>\<open>xs[i]\<close> on a typed array: \<^verbatim>\<open>undefined\<close> (here \<open>None\<close>) out of range, never an exception.\<close>

definition ta_get :: "'a list \<Rightarrow> nat \<Rightarrow> 'a option" where
  "ta_get xs i = (if i < length xs then Some (xs ! i) else None)"

text \<open>The conversion a \<^verbatim>\<open>Uint8Array\<close> store applies: \<^verbatim>\<open>undefined\<close> becomes NaN, stored as 0.\<close>

fun to_u8 :: "u8 option \<Rightarrow> u8" where
  "to_u8 None = 0"
| "to_u8 (Some b) = b"

text \<open>\<^verbatim>\<open>xs[p] = v\<close> on a \<^verbatim>\<open>Uint8Array\<close>: a store past the end is dropped, the length never changes.\<close>

definition ta_set :: "u8 list \<Rightarrow> nat \<Rightarrow> u8 option \<Rightarrow> u8 list" where
  "ta_set xs p v = (if p < length xs then xs[p := to_u8 v] else xs)"

text \<open>\<^verbatim>\<open>new Uint8Array(n)\<close>: \<open>n\<close> zero bytes.\<close>

definition new_Uint8Array :: "nat \<Rightarrow> u8 list" where
  "new_Uint8Array n = replicate n 0"

section \<open>Step E of runInference: RGBA to RGB\<close>

text \<open>
  \<^verbatim>\<open>
  const rgb = new Uint8Array(320 * 320 * 3);
  let p = 0;
  for (let i = 0; i < rgba.length; i += 4) {
      rgb[p++] = rgba[i];     // R
      rgb[p++] = rgba[i + 1]; // G
      rgb[p++] = rgba[i + 2]; // B
  }
  \<close>
\<close>

definition RGB_SIZE :: nat where
  "RGB_SIZE = 320 * 320 * 3"

function rgba_to_rgb_loop :: "u8 list \<Rightarrow> nat \<Rightarrow> nat \<Rightarrow> u8 list \<Rightarrow> u8 list" where
  "rgba_to_rgb_loop rgba i p rgb =
     (if i < length rgba then
        rgba_to_rgb_loop rgba (i + 4) (p + 3)
          (ta_set (ta_set (ta_set rgb p (ta_get rgba i))
             (p + 1) (ta_get rgba (i + 1)))
             (p + 2) (ta_get rgba (i + 2)))
      else rgb)"
  by pat_completeness auto
termination
  by (relation "measure (\<lambda>(rgba, i, p, rgb). length rgba - i)") auto

declare rgba_to_rgb_loop.simps [simp del]

definition rgba_to_rgb :: "u8 list \<Rightarrow> u8 list" where
  "rgba_to_rgb rgba = rgba_to_rgb_loop rgba 0 0 (new_Uint8Array RGB_SIZE)"

section \<open>Numbers, strings and the label table\<close>

text \<open>
  A JavaScript Number as the detector meets it: NaN, or a value. Scores are modelled as
  exact rationals and class ids as integers; the rounding of binary floating point is
  outside this model.
\<close>

datatype 'a number = NaN | Num 'a

text \<open>\<^verbatim>\<open>Number(xs[i])\<close> on a typed array: \<^verbatim>\<open>Number(undefined)\<close> is NaN.\<close>

definition Number_at :: "'a list \<Rightarrow> nat \<Rightarrow> 'a number" where
  "Number_at xs i = (case ta_get xs i of None \<Rightarrow> NaN | Some v \<Rightarrow> Num v)"

text \<open>\<^verbatim>\<open>x > t\<close>: every comparison with NaN is false.\<close>

fun js_gt :: "rat number \<Rightarrow> rat \<Rightarrow> bool" where
  "js_gt NaN t = False"
| "js_gt (Num x) t = (t < x)"

fun js_times :: "rat number \<Rightarrow> rat \<Rightarrow> rat number" where
  "js_times NaN k = NaN"
| "js_times (Num x) k = Num (x * k)"

definition digit :: "nat \<Rightarrow> char" where
  "digit d = ''0123456789'' ! d"

function dec :: "nat \<Rightarrow> string" where
  "dec n = (if n < 10 then [digit n] else dec (n div 10) @ [digit (n mod 10)])"
  by pat_completeness auto
termination
  by (relation "measure (\<lambda>n. n)") auto

declare dec.simps [simp del]

text \<open>
  A class id inside a template literal, \<^verbatim>\<open>`${classId}`\<close>: decimal digits, as JavaScript
  prints an integral Number below \<open>10\<^sup>2\<^sup>1\<close>.
\<close>

fun to_string :: "int number \<Rightarrow> string" where
  "to_string NaN = ''NaN''"
| "to_string (Num n) = (if n < 0 then ''-'' @ dec (nat (- n)) else dec (nat n))"

text \<open>
  \<^verbatim>\<open>x.toFixed(0)\<close>: the nearest integer, the larger one on a tie, after the sign is
  split off (the decimal branch of \<^verbatim>\<open>Number.prototype.toFixed\<close>, taken below \<open>10\<^sup>2\<^sup>1\<close>).
\<close>

fun toFixed0 :: "rat number \<Rightarrow> string" where
  "toFixed0 NaN = ''NaN''"
| "toFixed0 (Num x) =
     (if x < 0 then ''-'' @ dec (nat \<lfloor>- x + 1 / 2\<rfloor>) else dec (nat \<lfloor>x + 1 / 2\<rfloor>))"

text \<open>
  \<^verbatim>\<open>
  const COCO_LABELS: { [key: number]: string } = {
      0: 'person', 1: 'bicycle', 2: 'car', 3: 'motorcycle',
      5: 'bus', 7: 'truck', 9: 'traffic light'
  };
  \<close>
\<close>

definition COCO_LABELS :: "int \<rightharpoonup> string" where
  "COCO_LABELS = [0 \<mapsto> ''person'', 1 \<mapsto> ''bicycle'', 2 \<mapsto> ''car'', 3 \<mapsto> ''motorcycle'',
     5 \<mapsto> ''bus'', 7 \<mapsto> ''truck'', 9 \<mapsto> ''traffic light'']"

text \<open>\<^verbatim>\<open>COCO_LABELS[classId]\<close>: the key NaN is not in the table.\<close>

fun lookup_label :: "int number \<Rightarrow> string option" where
  "lookup_label NaN = None"
| "lookup_label (Num c) = COCO_LABELS c"

text \<open>\<^verbatim>\<open>a || b\<close> on a string or \<^verbatim>\<open>undefined\<close>: the empty string is falsy too.\<close>

fun or_else :: "string option \<Rightarrow> string \<Rightarrow> string" where
  "or_else None d = d"
| "or_else (Some l) d = (if l = [] then d else l)"

text \<open>\<^verbatim>\<open>const label = COCO_LABELS[classId] || `Class ${classId}`;\<close>\<close>

definition label_of :: "int number \<Rightarrow> string" where
  "label_of classId = or_else (lookup_label classId) (''Class '' @ to_string classId)"

text \<open>
  The first characters of the FOUND line, as the bytes of the gallery variant's source
  file (the camera variant has the three bytes of a check mark there).
\<close>

definition found_prefix :: string where
  "found_prefix = [CHR 0xC3, CHR 0xA2, CHR 0xC5, CHR 0x93, CHR 0xE2, CHR 0x80, CHR 0xA6]"

text \<open>\<^verbatim>\<open>`... FOUND: ${label} (${(score * 100).toFixed(0)}%)`\<close>\<close>

definition found_msg :: "string \<Rightarrow> rat number \<Rightarrow> string" where
  "found_msg label score =
     found_prefix @ '' FOUND: '' @ label @ '' ('' @ toFixed0 (js_times score 100) @ ''%)''"

section \<open>The component's state and its environment\<close>

datatype model_state = Loading | Loaded | Error

text \<open>
  What \<^verbatim>\<open>model.runSync\<close> returns, as far as the component reads it: \<^verbatim>\<open>output.length\<close>,
  \<^verbatim>\<open>output[1]\<close> and \<^verbatim>\<open>output[2]\<close> (\<open>None\<close> when the array is shorter and the read
  gives \<^verbatim>\<open>undefined\<close>).
\<close>

record tf_output =
  tensors :: nat
  classes_t :: "int list option"
  scores_t :: "rat list option"

text \<open>A thrown value, as the string \<^verbatim>\<open>`${e}`\<close> that the handlers log.\<close>

type_synonym exn = string

text \<open>A loaded \<^verbatim>\<open>TensorflowModel\<close>: its \<^verbatim>\<open>runSync\<close>.\<close>

type_synonym tf_model = "u8 list \<Rightarrow> exn + tf_output"

text \<open>Calls into the external libraries, recorded in the order they are made.\<close>

datatype ext_call =
    LoadTensorflowModel string
  | RunSync "u8 list"
  | LaunchImageLibrary
  | ManipulateAsync string
  | FileBase64 string
  | JpegDecode string

text \<open>
  The environment: the wall clock (\<open>time env k\<close> is the \<open>k\<close>-th reading of
  \<^verbatim>\<open>new Date().toLocaleTimeString()\<close>), the answers of the external libraries (\<open>Inl e\<close>
  when the call throws), and the engine's TypeError for an index read on \<^verbatim>\<open>undefined\<close>.
\<close>

record env =
  time :: "nat \<Rightarrow> string"
  loadTensorflowModel :: "string \<Rightarrow> exn + tf_model"
  launchImageLibraryAsync :: "exn + string option"
  manipulateAsync :: "string \<Rightarrow> exn + string"
  base64 :: "string \<Rightarrow> exn + string"
  jpeg_decode :: "string \<Rightarrow> exn + u8 list"
  type_error :: "nat \<Rightarrow> exn"

text \<open>
  The \<^verbatim>\<open>useState\<close> cells of the component, and what it has done to the outside:
  the lines of \<^verbatim>\<open>console.log\<close>, the number of clock readings, the external calls.
\<close>

record detector =
  modelUri :: "string option"
  logs :: "string list"
  imageUri :: "string option"
  processing :: bool
  model :: "tf_model option"
  modelState :: model_state
  console :: "string list"
  clock :: nat
  ext :: "ext_call list"

definition initial :: detector where
  "initial = \<lparr>modelUri = None, logs = [], imageUri = None, processing = False,
     model = None, modelState = Loading, console = [], clock = 0, ext = []\<rparr>"

text \<open>
  \<^verbatim>\<open>
  const addLog = (msg: string) => {
      console.log(msg);
      setLogs(prev => [`[${new Date().toLocaleTimeString()}] ${msg}`, ...prev]);
  };
  \<close>
\<close>

definition addLog :: "env \<Rightarrow> string \<Rightarrow> detector \<Rightarrow> detector" where
  "addLog env msg s =
     s\<lparr>console := console s @ [msg],
       logs := (''['' @ time env (clock s) @ ''] '' @ msg) # logs s,
       clock := Suc (clock s)\<rparr>"

definition call :: "ext_call \<Rightarrow> detector \<Rightarrow> detector" where
  "call c s = s\<lparr>ext := ext s @ [c]\<rparr>"

section \<open>Step F of runInference: thresholding and labelling\<close>

text \<open>
  \<^verbatim>\<open>
  let count = 0;
  for (let i = 0; i < 25; i++) {
      const score = Number(scores[i]);
      if (score > 0.4) {
          const classId = Number(classes[i]);
          const label = COCO_LABELS[classId] || `Class ${classId}`;
          addLog(`... FOUND: ${label} (${(score * 100).toFixed(0)}%)`);
          count++;
      }
  }
  \<close>
  An index read on \<^verbatim>\<open>undefined\<close> (a missing output tensor) throws; the loop then
  stops with the state it has reached.
\<close>

function detect_loop ::
  "env \<Rightarrow> int list option \<Rightarrow> rat list option \<Rightarrow> nat \<Rightarrow> nat \<Rightarrow> detector \<Rightarrow> (exn + nat) \<times> detector"
where
  "detect_loop env classes scores i count s =
     (if i < 25 then
        (case scores of
           None \<Rightarrow> (Inl (type_error env i), s)
         | Some ss \<Rightarrow>
             if js_gt (Number_at ss i) 0.4 then
               (case classes of
                  None \<Rightarrow> (Inl (type_error env i), s)
                | Some cs \<Rightarrow>
                    detect_loop env classes scores (i + 1) (count + 1)
                      (addLog env (found_msg (label_of (Number_at cs i)) (Number_at ss i)) s))
             else detect_loop env classes scores (i + 1) count s)
      else (Inr count, s))"
  by pat_completeness auto
termination
  by (relation "measure (\<lambda>(env, classes, scores, i, count, s). 25 - i)") auto

declare detect_loop.simps [simp del]

text \<open>
  The loop, then
  \<^verbatim>\<open>
  if (count === 0) addLog("No objects detected > 40%");
  setProcessing(false);
  \<close>
\<close>

definition post_process :: "env \<Rightarrow> tf_output \<Rightarrow> detector \<Rightarrow> (exn + unit) \<times> detector" where
  "post_process env output s =
     (case detect_loop env (classes_t output) (scores_t output) 0 0 s of
        (Inl e, s') \<Rightarrow> (Inl e, s')
      | (Inr count, s') \<Rightarrow>
          (Inr (), (if count = 0 then addLog env ''No objects detected > 40%'' s' else s')
             \<lparr>processing := False\<rparr>))"

section \<open>runInference, pickAndDetect and load\<close>

text \<open>
  The body of the \<^verbatim>\<open>try\<close> block of \<^verbatim>\<open>runInference\<close>, after its guard: resize, read,
  decode, strip alpha, run the model, post-process. A throwing call leaves with \<open>Inl e\<close>.
\<close>

definition inference_body ::
  "env \<Rightarrow> tf_model \<Rightarrow> string \<Rightarrow> detector \<Rightarrow> (exn + unit) \<times> detector"
where
  "inference_body env m filesUri s0 =
     (let s1 = call (ManipulateAsync filesUri) s0 in
      case manipulateAsync env filesUri of
        Inl e \<Rightarrow> (Inl e, s1)
      | Inr uri \<Rightarrow>
          let s2 = call (FileBase64 uri) s1 in
          case base64 env uri of
            Inl e \<Rightarrow> (Inl e, s2)
          | Inr b64 \<Rightarrow>
              let s3 = call (JpegDecode b64) s2 in
              case jpeg_decode env b64 of
                Inl e \<Rightarrow> (Inl e, s3)
              | Inr rgba \<Rightarrow>
                  let rgb = rgba_to_rgb rgba;
                      s4 = addLog env ''Running inference on image...'' s3;
                      s5 = call (RunSync rgb) s4
                  in case m rgb of
                       Inl e \<Rightarrow> (Inl e, s5)
                     | Inr output \<Rightarrow>
                         post_process env output
                           (addLog env (''Inference Done! Output tensors: '' @ dec (tensors output)) s5))"

text \<open>
  \<^verbatim>\<open>
  const runInference = async (filesUri: string) => {
      try {
          if (!model) return;
          ...
      } catch (e) {
          addLog(`Inference Error: ${e}`);
          setProcessing(false);
      }
  };
  \<close>
\<close>

definition runInference :: "env \<Rightarrow> string \<Rightarrow> detector \<Rightarrow> detector" where
  "runInference env filesUri s =
     (case model s of
        None \<Rightarrow> s
      | Some m \<Rightarrow>
          (case inference_body env m filesUri s of
             (Inr u, s') \<Rightarrow> s'
           | (Inl e, s') \<Rightarrow> (addLog env (''Inference Error: '' @ e) s')\<lparr>processing := False\<rparr>))"

text \<open>
  \<^verbatim>\<open>
  const pickAndDetect = async () => {
      if (!model) { addLog("Wait for model to load."); return; }
      try {
          const result = await ImagePicker.launchImageLibraryAsync({...});
          if (result.canceled) return;
          const sourceUri = result.assets[0].uri;
          setImageUri(sourceUri);
          setProcessing(true);
          addLog("Image picked. Pre-processing...");
          setTimeout(async () => { await runInference(sourceUri); }, 100);
      } catch (e) {
          addLog(`Pick Error: ${e}`);
          setProcessing(false);
      }
  };
  \<close>
  The picker answers \<open>Inr None\<close> when the user cancels. The deferred call of
  \<^verbatim>\<open>runInference\<close> is run right after the handler.
\<close>

definition pickAndDetect :: "env \<Rightarrow> detector \<Rightarrow> detector" where
  "pickAndDetect env s =
     (case model s of
        None \<Rightarrow> addLog env ''Wait for model to load.'' s
      | Some m \<Rightarrow>
          (let s1 = call LaunchImageLibrary s in
           case launchImageLibraryAsync env of
             Inl e \<Rightarrow> (addLog env (''Pick Error: '' @ e) s1)\<lparr>processing := False\<rparr>
           | Inr None \<Rightarrow> s1
           | Inr (Some sourceUri) \<Rightarrow>
               runInference env sourceUri
                 (addLog env ''Image picked. Pre-processing...''
                    (s1\<lparr>imageUri := Some sourceUri, processing := True\<rparr>))))"

text \<open>
  The effect that loads the model when \<^verbatim>\<open>modelUri\<close> is set:
  \<^verbatim>\<open>
  if (!modelUri) return;
  try {
      setModelState('loading');
      addLog(`Loading model: ...${modelUri.slice(-20)}`);
      const m = await loadTensorflowModel({ url: modelUri });
      addLog('Model loaded! Warming up...');
      try {
          const dummy = new Uint8Array(320 * 320 * 3);
          m.runSync([dummy]);
          addLog('Warmup complete.');
      } catch (e) { console.error(e); }
      setModel(m);
      setModelState('loaded');
  } catch (e) {
      addLog(`Error loading model: ${e}`);
      setModelState('error');
  }
  \<close>
  The empty string is falsy, like \<^verbatim>\<open>null\<close>. The error of a failed warm-up goes to
  \<^verbatim>\<open>console.error\<close>, which is not recorded.
\<close>

definition load :: "env \<Rightarrow> detector \<Rightarrow> detector" where
  "load env s =
     (case modelUri s of
        None \<Rightarrow> s
      | Some uri \<Rightarrow>
          if uri = [] then s
          else
            (let s1 = addLog env (''Loading model: ...'' @ drop (length uri - 20) uri)
                        (s\<lparr>modelState := Loading\<rparr>);
                 s2 = call (LoadTensorflowModel uri) s1
             in case loadTensorflowModel env uri of
                  Inl e \<Rightarrow> (addLog env (''Error loading model: '' @ e) s2)\<lparr>modelState := Error\<rparr>
                | Inr m \<Rightarrow>
                    (let s3 = addLog env ''Model loaded! Warming up...'' s2;
                         dummy = new_Uint8Array (320 * 320 * 3);
                         s4 = call (RunSync dummy) s3;
                         s5 = (case m dummy of
                                 Inl e \<Rightarrow> s4
                               | Inr out \<Rightarrow> addLog env ''Warmup complete.'' s4)
                     in s5\<lparr>model := Some m, modelState := Loaded\<rparr>)))"

text \<open>
  The load effect in its two parts: what runs up to the \<^verbatim>\<open>await\<close> of
  \<^verbatim>\<open>loadTensorflowModel\<close>, and what runs once the library has answered. A press of
  the button can fall between the two.
\<close>

definition load_begin :: "env \<Rightarrow> string \<Rightarrow> detector \<Rightarrow> detector" where
  "load_begin env uri s =
     call (LoadTensorflowModel uri)
       (addLog env (''Loading model: ...'' @ drop (length uri - 20) uri)
          (s\<lparr>modelState := Loading\<rparr>))"

definition load_end :: "env \<Rightarrow> string \<Rightarrow> detector \<Rightarrow> detector" where
  "load_end env uri s2 =
     (case loadTensorflowModel env uri of
        Inl e \<Rightarrow> (addLog env (''Error loading model: '' @ e) s2)\<lparr>modelState := Error\<rparr>
      | Inr m \<Rightarrow>
          (let s3 = addLog env ''Model loaded! Warming up...'' s2;
               dummy = new_Uint8Array (320 * 320 * 3);
               s4 = call (RunSync dummy) s3;
               s5 = (case m dummy of
                       Inl e \<Rightarrow> s4
                     | Inr out \<Rightarrow> addLog env ''Warmup complete.'' s4)
           in s5\<lparr>model := Some m, modelState := Loaded\<rparr>))"

text \<open>
  The states the component can be in. It is mounted in the initial state. The asset
  effect sets \<^verbatim>\<open>modelUri\<close> once, from the bundled model file (\<^verbatim>\<open>useAssets([ModelPath])\<close>),
  which starts the load effect; the load ends when the library answers. The handler
  \<^verbatim>\<open>pickAndDetect\<close> may be invoked in any state, also while the button is shown disabled.
\<close>

inductive reach :: "detector \<Rightarrow> bool" where
  mount: "reach initial"
| asset: "reach s \<Longrightarrow> modelUri s = None \<Longrightarrow>
    reach (if uri = [] then s\<lparr>modelUri := Some uri\<rparr>
           else load_begin env uri (s\<lparr>modelUri := Some uri\<rparr>))"
| answer: "reach s \<Longrightarrow> modelUri s = Some uri \<Longrightarrow> uri \<noteq> [] \<Longrightarrow> modelState s = Loading \<Longrightarrow>
    reach (load_end env uri s)"
| press: "reach s \<Longrightarrow> reach (pickAndDetect env s)"

section \<open>Notions used to state the properties\<close>

text \<open>Logging a list of messages, one \<^verbatim>\<open>addLog\<close> call after the other.\<close>

definition add_logs :: "env \<Rightarrow> string list \<Rightarrow> detector \<Rightarrow> detector" where
  "add_logs env msgs s = foldl (\<lambda>s' m. addLog env m s') s msgs"

text \<open>The log entries of messages logged from clock reading \<open>n\<close> on, oldest first.\<close>

fun stamped :: "env \<Rightarrow> nat \<Rightarrow> string list \<Rightarrow> string list" where
  "stamped env n [] = []"
| "stamped env n (m # ms) = (''['' @ time env n @ ''] '' @ m) # stamped env (Suc n) ms"

text \<open>The slots from \<open>i\<close> on whose score passes the threshold, in ascending order.\<close>

definition hits :: "rat list \<Rightarrow> nat \<Rightarrow> nat list" where
  "hits ss i = filter (\<lambda>k. k < length ss \<and> 0.4 < ss ! k) [i..<25]"

text \<open>The line logged for slot \<open>k\<close>.\<close>

definition slot_msg :: "int list \<Rightarrow> rat list \<Rightarrow> nat \<Rightarrow> string" where
  "slot_msg cs ss k = found_msg (label_of (Number_at cs k)) (Num (ss ! k))"

text \<open>
  The specification's sequence of labelled detections (label, score), read off the
  values the loop logs: one pair for each slot that passes, in slot order.
\<close>

definition detections :: "int list \<Rightarrow> rat list \<Rightarrow> (string \<times> rat) list" where
  "detections cs ss = map (\<lambda>k. (label_of (Number_at cs k), ss ! k)) (hits ss 0)"

text \<open>The number that a string of decimal digits denotes.\<close>

definition read_nat :: "string \<Rightarrow> nat" where
  "read_nat ds = foldl (\<lambda>a d. 10 * a + (of_char d - 48)) 0 ds"

text \<open>A model and an environment to run the component on.\<close>

definition example_model :: tf_model where
  "example_model rgb =
     Inr \<lparr>tensors = 4, classes_t = Some [2, 5, 0], scores_t = Some [0.82, 0.3, 0.91]\<rparr>"

definition example_env :: env where
  "example_env =
     \<lparr>time = (\<lambda>k. ''12:00:00''),
      loadTensorflowModel =
        (\<lambda>uri. if uri = ''model.tflite'' then Inr example_model else Inl ''Error: no model''),
      launchImageLibraryAsync = Inr (Some ''photo.jpg''),
      manipulateAsync = (\<lambda>uri. Inr ''resized.jpg''),
      base64 = (\<lambda>uri. Inr ''AAAA''),
      jpeg_decode = (\<lambda>b64. Inr [10, 20, 30, 255]),
      type_error = (\<lambda>i. ''TypeError'')\<rparr>"

text \<open>A model whose \<^verbatim>\<open>runSync\<close> throws.\<close>

definition failing_model :: tf_model where
  "failing_model rgb = Inl ''Error: runSync failed''"

section \<open>Properties of the channel reduction\<close>

lemma RGB_SIZE_eq: "RGB_SIZE = 307200"
  by (simp add: RGB_SIZE_def)

lemma length_ta_set: "length (ta_set xs p v) = length xs"
  by (simp add: ta_set_def)

lemma nth_ta_set:
  "k < length xs \<Longrightarrow> ta_set xs p v ! k = (if k = p then to_u8 v else xs ! k)"
  by (simp add: ta_set_def)

lemma length_rgba_to_rgb_loop: "length (rgba_to_rgb_loop rgba i p rgb) = length rgb"
proof (induction rgba i p rgb rule: rgba_to_rgb_loop.induct)
  case (1 rgba i p rgb)
  show ?case
  proof (cases "i < length rgba")
    case True
    with "1" show ?thesis
      by (subst rgba_to_rgb_loop.simps) (simp add: length_ta_set)
  next
    case False
    then show ?thesis
      by (subst rgba_to_rgb_loop.simps) simp
  qed
qed

lemma length_rgba_to_rgb: "length (rgba_to_rgb rgba) = RGB_SIZE"
  by (simp add: rgba_to_rgb_def length_rgba_to_rgb_loop new_Uint8Array_def)

lemma to_u8_ta_get: "to_u8 (ta_get xs j) = (if j < length xs then xs ! j else 0)"
  by (simp add: ta_get_def)

lemma nth_rgba_to_rgb_loop:
  "k < length rgb \<Longrightarrow>
   rgba_to_rgb_loop rgba i p rgb ! k =
     (if p \<le> k \<and> i + 4 * ((k - p) div 3) < length rgba
      then to_u8 (ta_get rgba (i + 4 * ((k - p) div 3) + (k - p) mod 3))
      else rgb ! k)"
proof (induction rgba i p rgb rule: rgba_to_rgb_loop.induct)
  case (1 rgba i p rgb)
  show ?case
  proof (cases "i < length rgba")
    case False
    then show ?thesis
      by (subst rgba_to_rgb_loop.simps) simp
  next
    case True
    let ?rgb' = "ta_set (ta_set (ta_set rgb p (ta_get rgba i))
             (p + 1) (ta_get rgba (i + 1)))
             (p + 2) (ta_get rgba (i + 2))"
    have len: "k < length ?rgb'"
      using "1.prems" by (simp add: length_ta_set)
    have unfold: "rgba_to_rgb_loop rgba i p rgb = rgba_to_rgb_loop rgba (i + 4) (p + 3) ?rgb'"
      using True by (subst rgba_to_rgb_loop.simps) simp
    note IH = "1.IH" [OF True len]
    have upd: "?rgb' ! k =
        (if k = p + 2 then to_u8 (ta_get rgba (i + 2))
         else if k = p + 1 then to_u8 (ta_get rgba (i + 1))
         else if k = p then to_u8 (ta_get rgba i) else rgb ! k)"
      using "1.prems" by (simp add: nth_ta_set length_ta_set)
    consider (lt) "k < p" | (c0) "k = p" | (c1) "k = p + 1" | (c2) "k = p + 2" | (ge) "p + 3 \<le> k"
      by linarith
    then show ?thesis
    proof cases
      case lt
      then show ?thesis unfolding unfold IH upd by simp
    next
      case c0
      then show ?thesis unfolding unfold IH upd using True by simp
    next
      case c1
      then show ?thesis unfolding unfold IH upd using True by simp
    next
      case c2
      then show ?thesis unfolding unfold IH upd using True by simp
    next
      case ge
      then obtain d where d: "k = p + 3 + d"
        using le_Suc_ex by blast
      have q: "(k - p) div 3 = Suc (d div 3)" "(k - p) mod 3 = d mod 3"
        "(k - (p + 3)) div 3 = d div 3" "(k - (p + 3)) mod 3 = d mod 3"
        unfolding d by simp_all
      show ?thesis unfolding unfold IH upd q using ge d by (simp add: add.assoc)
    qed
  qed
qed

lemma nth_rgba_to_rgb:
  "k < RGB_SIZE \<Longrightarrow>
   rgba_to_rgb rgba ! k =
     (if 4 * (k div 3) + k mod 3 < length rgba then rgba ! (4 * (k div 3) + k mod 3) else 0)"
  by (simp add: rgba_to_rgb_def nth_rgba_to_rgb_loop new_Uint8Array_def to_u8_ta_get)

lemma rgba_to_rgb_take: "rgba_to_rgb (take (4 * (320 * 320)) rgba) = rgba_to_rgb rgba"
proof (rule nth_equalityI)
  show "length (rgba_to_rgb (take (4 * (320 * 320)) rgba)) = length (rgba_to_rgb rgba)"
    by (simp add: length_rgba_to_rgb)
next
  fix k
  assume "k < length (rgba_to_rgb (take (4 * (320 * 320)) rgba))"
  then have k: "k < RGB_SIZE"
    by (simp add: length_rgba_to_rgb)
  then have "k div 3 < 102400"
    unfolding RGB_SIZE_eq by (simp add: less_mult_imp_div_less)
  moreover have "k mod 3 < 3"
    by simp
  ultimately have "4 * (k div 3) + k mod 3 < 4 * (320 * 320)"
    by linarith
  then show "rgba_to_rgb (take (4 * (320 * 320)) rgba) ! k = rgba_to_rgb rgba ! k"
    using k by (simp add: nth_rgba_to_rgb)
qed

lemma rgba_to_rgb_pixel:
  assumes "4 * i + c < length rgba" and "c < 3" and "i < 320 * 320"
  shows "rgba_to_rgb rgba ! (3 * i + c) = rgba ! (4 * i + c)"
proof -
  have k: "3 * i + c < RGB_SIZE"
    using assms unfolding RGB_SIZE_eq by simp
  have "(3 * i + c) div 3 = i" "(3 * i + c) mod 3 = c"
    using assms by simp_all
  then show ?thesis
    using assms nth_rgba_to_rgb [OF k, of rgba] by simp
qed

lemma rgba_to_rgb_tail:
  assumes "k < 307200" and "length rgba \<le> 4 * (k div 3)"
  shows "rgba_to_rgb rgba ! k = 0"
  using assms by (simp add: nth_rgba_to_rgb RGB_SIZE_eq)

section \<open>Properties of logging\<close>

lemma addLog_fields:
  "console (addLog env msg s) = console s @ [msg]"
  "logs (addLog env msg s) = (''['' @ time env (clock s) @ ''] '' @ msg) # logs s"
  "clock (addLog env msg s) = Suc (clock s)"
  "ext (addLog env msg s) = ext s"
  "model (addLog env msg s) = model s"
  "modelState (addLog env msg s) = modelState s"
  "processing (addLog env msg s) = processing s"
  "imageUri (addLog env msg s) = imageUri s"
  "modelUri (addLog env msg s) = modelUri s"
  by (simp_all add: addLog_def)

lemma call_fields:
  "console (call c s) = console s"
  "logs (call c s) = logs s"
  "clock (call c s) = clock s"
  "ext (call c s) = ext s @ [c]"
  "model (call c s) = model s"
  "modelState (call c s) = modelState s"
  "processing (call c s) = processing s"
  "imageUri (call c s) = imageUri s"
  "modelUri (call c s) = modelUri s"
  by (simp_all add: call_def)

lemma add_logs_Nil: "add_logs env [] s = s"
  by (simp add: add_logs_def)

lemma add_logs_Cons: "add_logs env (m # ms) s = add_logs env ms (addLog env m s)"
  by (simp add: add_logs_def)

lemma console_add_logs: "console (add_logs env ms s) = console s @ ms"
  by (induction ms arbitrary: s) (simp_all add: add_logs_Nil add_logs_Cons addLog_fields)

lemma logs_add_logs: "logs (add_logs env ms s) = rev (stamped env (clock s) ms) @ logs s"
  by (induction ms arbitrary: s) (simp_all add: add_logs_Nil add_logs_Cons addLog_fields)

section \<open>Properties of the decimal digits\<close>

lemma of_char_digit: "d < 10 \<Longrightarrow> (of_char (digit d) :: nat) = 48 + d"
proof -
  assume "d < 10"
  then have "d = 0 \<or> d = 1 \<or> d = 2 \<or> d = 3 \<or> d = 4 \<or> d = 5 \<or> d = 6 \<or> d = 7 \<or>
      d = 8 \<or> d = 9"
    by arith
  then show ?thesis
    by (elim disjE) (simp_all add: digit_def)
qed

lemma digit_in_digits: "d < 10 \<Longrightarrow> digit d \<in> set ''0123456789''"
  unfolding digit_def by (rule nth_mem) simp

lemma digit_zero: "d < 10 \<Longrightarrow> digit d = CHR ''0'' \<longleftrightarrow> d = 0"
proof -
  assume d: "d < 10"
  have "digit 0 = CHR ''0''"
    by (simp add: digit_def)
  moreover have "d = 0" if "digit d = CHR ''0''"
  proof -
    have "(of_char (digit d) :: nat) = 48"
      using that by simp
    then show ?thesis
      using of_char_digit [OF d] by simp
  qed
  ultimately show ?thesis
    by auto
qed

lemma read_nat_snoc: "read_nat (ds @ [d]) = 10 * read_nat ds + (of_char d - 48)"
  by (simp add: read_nat_def)

lemma dec_not_Nil: "dec n \<noteq> []"
  by (subst dec.simps) simp

lemma read_nat_dec: "read_nat (dec n) = n"
proof (induction n rule: dec.induct)
  case (1 n)
  show ?case
  proof (cases "n < 10")
    case True
    then show ?thesis
      by (subst dec.simps) (simp add: read_nat_def of_char_digit)
  next
    case False
    then have "read_nat (dec n) = 10 * read_nat (dec (n div 10)) + (of_char (digit (n mod 10)) - 48)"
      by (subst dec.simps) (simp add: read_nat_snoc)
    also have "\<dots> = 10 * (n div 10) + n mod 10"
      using "1.IH" [OF False] by (simp add: of_char_digit)
    finally show ?thesis
      by simp
  qed
qed

lemma set_dec: "set (dec n) \<subseteq> set ''0123456789''"
proof (induction n rule: dec.induct)
  case (1 n)
  show ?case
  proof (cases "n < 10")
    case True
    then show ?thesis
      using digit_in_digits [of n] by (subst dec.simps) simp
  next
    case False
    have "n mod 10 < 10"
      by simp
    then have "digit (n mod 10) \<in> set ''0123456789''"
      by (rule digit_in_digits)
    then show ?thesis
      using "1.IH" [OF False] False by (subst dec.simps) simp
  qed
qed

lemma hd_dec: "0 < n \<Longrightarrow> hd (dec n) \<noteq> CHR ''0''"
proof (induction n rule: dec.induct)
  case (1 n)
  show ?case
  proof (cases "n < 10")
    case True
    then show ?thesis
      using "1.prems" by (subst dec.simps) (simp add: digit_zero)
  next
    case False
    then have "0 < n div 10"
      by simp
    then have "hd (dec (n div 10)) \<noteq> CHR ''0''"
      by (rule "1.IH" [OF False])
    then show ?thesis
      using False by (subst dec.simps) (simp add: dec_not_Nil)
  qed
qed

section \<open>Properties of the detection loop\<close>

lemma js_gt_Number_at: "js_gt (Number_at ss k) t \<longleftrightarrow> k < length ss \<and> t < ss ! k"
  by (simp add: Number_at_def ta_get_def)

lemma Number_at_in_range: "k < length xs \<Longrightarrow> Number_at xs k = Num (xs ! k)"
  by (simp add: Number_at_def ta_get_def)

lemma Number_at_out_of_range: "length xs \<le> k \<Longrightarrow> Number_at xs k = NaN"
  by (simp add: Number_at_def ta_get_def)

lemma hits_step:
  "i < 25 \<Longrightarrow> hits ss i = (if i < length ss \<and> 0.4 < ss ! i then i # hits ss (i + 1) else hits ss (i + 1))"
  by (simp add: hits_def upt_conv_Cons)

lemma hits_done: "25 \<le> i \<Longrightarrow> hits ss i = []"
  by (simp add: hits_def)

lemma hits_0: "hits ss 0 = filter (\<lambda>k. k < length ss \<and> 0.4 < ss ! k) [0..<25]"
  by (simp add: hits_def)

lemma set_hits: "set (hits ss i) = {k. i \<le> k \<and> k < 25 \<and> k < length ss \<and> 0.4 < ss ! k}"
  by (auto simp: hits_def)

lemma hits_short:
  assumes "length ss \<le> 25"
  shows "hits ss 0 = filter (\<lambda>k. 0.4 < ss ! k) [0..<length ss]"
proof -
  have "[0..<25] = [0..<length ss] @ [length ss..<25]"
    using assms by (metis le_add_diff_inverse upt_add_eq_append zero_le)
  then have "hits ss 0 = filter (\<lambda>k. k < length ss \<and> 0.4 < ss ! k) [0..<length ss] @
      filter (\<lambda>k. k < length ss \<and> 0.4 < ss ! k) [length ss..<25]"
    by (simp add: hits_def)
  moreover have "filter (\<lambda>k. k < length ss \<and> 0.4 < ss ! k) [length ss..<25] = []"
    by (simp add: filter_empty_conv)
  moreover have "filter (\<lambda>k. k < length ss \<and> 0.4 < ss ! k) [0..<length ss] =
      filter (\<lambda>k. 0.4 < ss ! k) [0..<length ss]"
    by (rule filter_cong) simp_all
  ultimately show ?thesis
    by simp
qed

lemma hits_from_length: "hits ss (length ss) = []"
  by (simp add: hits_def filter_empty_conv)

lemma hits_empty: "(\<forall>k<25. k < length ss \<longrightarrow> ss ! k \<le> 0.4) \<Longrightarrow> hits ss 0 = []"
  by (auto simp: hits_def filter_empty_conv)

lemma hits_take: "hits (take 25 ss) i = hits ss i"
  unfolding hits_def by (rule filter_cong) auto

lemma detect_loop_hit:
  assumes "i < 25" and "i < length ss" and "0.4 < ss ! i"
  shows "detect_loop env (Some cs) (Some ss) i count s =
    detect_loop env (Some cs) (Some ss) (i + 1) (count + 1)
      (addLog env (found_msg (label_of (Number_at cs i)) (Num (ss ! i))) s)"
  using assms by (subst detect_loop.simps) (simp add: js_gt_Number_at Number_at_in_range)

lemma detect_loop_miss:
  assumes "i < 25" and "\<not> js_gt (Number_at ss i) 0.4"
  shows "detect_loop env classes (Some ss) i count s =
    detect_loop env classes (Some ss) (i + 1) count s"
  using assms by (subst detect_loop.simps) simp

lemma detect_loop_Some:
  "detect_loop env (Some cs) (Some ss) i count s =
     (Inr (count + length (hits ss i)), add_logs env (map (slot_msg cs ss) (hits ss i)) s)"
proof (induction env "Some cs :: int list option" "Some ss :: rat list option" i count s
    rule: detect_loop.induct)
  case (1 env i count s)
  show ?case
  proof (cases "i < 25")
    case False
    then show ?thesis
      by (subst detect_loop.simps) (simp add: hits_done add_logs_Nil)
  next
    case True
    show ?thesis
    proof (cases "i < length ss \<and> 0.4 < ss ! i")
      case hit: True
      then have gt: "js_gt (Number_at ss i) 0.4"
        by (simp add: js_gt_Number_at)
      have "detect_loop env (Some cs) (Some ss) i count s =
          detect_loop env (Some cs) (Some ss) (i + 1) (count + 1)
            (addLog env (found_msg (label_of (Number_at cs i)) (Number_at ss i)) s)"
        using True gt by (subst detect_loop.simps) simp
      also have "\<dots> = (Inr (count + 1 + length (hits ss (i + 1))),
          add_logs env (map (slot_msg cs ss) (hits ss (i + 1)))
            (addLog env (found_msg (label_of (Number_at cs i)) (Number_at ss i)) s))"
        using "1.hyps"(1) [OF True refl gt refl] .
      finally show ?thesis
        using True hit by (simp add: hits_step add_logs_Cons slot_msg_def Number_at_in_range)
    next
      case miss: False
      then have ngt: "\<not> js_gt (Number_at ss i) 0.4"
        by (simp add: js_gt_Number_at)
      have "detect_loop env (Some cs) (Some ss) i count s =
          detect_loop env (Some cs) (Some ss) (i + 1) count s"
        using True ngt by (subst detect_loop.simps) simp
      also have "\<dots> = (Inr (count + length (hits ss (i + 1))),
          add_logs env (map (slot_msg cs ss) (hits ss (i + 1))) s)"
        using "1.hyps"(2) [OF True refl ngt] .
      finally show ?thesis
        using True miss by (simp add: hits_step)
    qed
  qed
qed

lemma detect_loop_no_hits:
  "hits ss i = [] \<Longrightarrow> detect_loop env classes (Some ss) i count s = (Inr count, s)"
proof (induction env classes "Some ss :: rat list option" i count s rule: detect_loop.induct)
  case (1 env classes i count s)
  show ?case
  proof (cases "i < 25")
    case False
    then show ?thesis
      by (subst detect_loop.simps) simp
  next
    case True
    from "1.prems" True have miss: "\<not> (i < length ss \<and> 0.4 < ss ! i)" and rest: "hits ss (i + 1) = []"
      by (auto simp: hits_step split: if_splits)
    then have ngt: "\<not> js_gt (Number_at ss i) 0.4"
      by (simp add: js_gt_Number_at)
    have "detect_loop env classes (Some ss) i count s = detect_loop env classes (Some ss) (i + 1) count s"
      using True ngt by (rule detect_loop_miss)
    also have "\<dots> = (Inr count, s)"
      using "1.hyps"(2) [OF True refl ngt rest] .
    finally show ?thesis .
  qed
qed

lemma slot_msg_take: "k < 25 \<Longrightarrow> slot_msg (take 25 cs) (take 25 ss) k = slot_msg cs ss k"
  by (simp add: slot_msg_def Number_at_def ta_get_def)

lemma detect_loop_take:
  "detect_loop env (Some (take 25 cs)) (Some (take 25 ss)) i count s =
   detect_loop env (Some cs) (Some ss) i count s"
proof -
  have "map (slot_msg (take 25 cs) (take 25 ss)) (hits ss i) = map (slot_msg cs ss) (hits ss i)"
    by (rule map_cong) (auto simp: set_hits slot_msg_take)
  then show ?thesis
    by (simp only: detect_loop_Some hits_take)
qed

lemma emitted_lines:
  "console (snd (detect_loop env (Some cs) (Some ss) i count s)) =
     console s @ map (slot_msg cs ss) (hits ss i)"
  by (simp add: detect_loop_Some console_add_logs)

lemma detections_lines:
  "map (\<lambda>(l, x). found_msg l (Num x)) (detections cs ss) = map (slot_msg cs ss) (hits ss 0)"
  by (simp add: detections_def slot_msg_def comp_def)

lemma ext_detect_loop: "ext (snd (detect_loop env classes scores i count s)) = ext s"
proof (induction env classes scores i count s rule: detect_loop.induct)
  case (1 env classes scores i count s)
  then show ?case
    by (subst detect_loop.simps) (auto simp: addLog_fields split: option.splits)
qed

lemma ext_post_process: "ext (snd (post_process env output s)) = ext s"
proof -
  obtain r s' where r: "detect_loop env (classes_t output) (scores_t output) 0 0 s = (r, s')"
    by (cases "detect_loop env (classes_t output) (scores_t output) 0 0 s")
  then have "ext s' = ext s"
    using ext_detect_loop [of env "classes_t output" "scores_t output" 0 0 s] by simp
  then show ?thesis
    by (cases r) (simp_all add: post_process_def r addLog_fields)
qed

lemma hits_last_slot: "hits ss 24 = (if 24 < length ss \<and> 0.4 < ss ! 24 then [24] else [])"
  using hits_step [of 24 ss] by (simp add: hits_done)

lemma model_detect_loop:
  "model (snd (detect_loop env classes scores i count s)) = model s \<and>
   modelState (snd (detect_loop env classes scores i count s)) = modelState s \<and>
   modelUri (snd (detect_loop env classes scores i count s)) = modelUri s"
proof (induction env classes scores i count s rule: detect_loop.induct)
  case (1 env classes scores i count s)
  then show ?case
    by (subst (1 2 3) detect_loop.simps) (auto simp: addLog_fields split: option.splits)
qed

lemma model_post_process:
  "model (snd (post_process env output s)) = model s \<and>
   modelState (snd (post_process env output s)) = modelState s \<and>
   modelUri (snd (post_process env output s)) = modelUri s"
proof -
  obtain r s' where r: "detect_loop env (classes_t output) (scores_t output) 0 0 s = (r, s')"
    by (cases "detect_loop env (classes_t output) (scores_t output) 0 0 s")
  then have "model s' = model s \<and> modelState s' = modelState s \<and> modelUri s' = modelUri s"
    using model_detect_loop [of env "classes_t output" "scores_t output" 0 0 s] by simp
  then show ?thesis
    by (cases r) (simp_all add: post_process_def r addLog_fields)
qed

section \<open>Properties of runInference, pickAndDetect and load\<close>

lemma runInference_failure:
  assumes "model s = Some m" and "fst (inference_body env m uri s) = Inl e"
  shows "runInference env uri s =
    (addLog env (''Inference Error: '' @ e) (snd (inference_body env m uri s)))\<lparr>processing := False\<rparr>"
  using assms by (cases "inference_body env m uri s") (simp add: runInference_def)

lemma ext_runInference:
  assumes "model s = Some m" and "manipulateAsync env uri = Inr u" and "base64 env u = Inr b"
    and "jpeg_decode env b = Inr rgba"
  shows "ext (runInference env uri s) =
    ext s @ [ManipulateAsync uri, FileBase64 u, JpegDecode b, RunSync (rgba_to_rgb rgba)]"
proof -
  define s5 where "s5 = call (RunSync (rgba_to_rgb rgba))
    (addLog env ''Running inference on image...''
      (call (JpegDecode b) (call (FileBase64 u) (call (ManipulateAsync uri) s))))"
  have ext5: "ext s5 =
      ext s @ [ManipulateAsync uri, FileBase64 u, JpegDecode b, RunSync (rgba_to_rgb rgba)]"
    by (simp add: s5_def call_fields addLog_fields)
  have body: "inference_body env m uri s =
      (case m (rgba_to_rgb rgba) of
         Inl e \<Rightarrow> (Inl e, s5)
       | Inr output \<Rightarrow>
           post_process env output
             (addLog env (''Inference Done! Output tensors: '' @ dec (tensors output)) s5))"
    unfolding s5_def inference_body_def Let_def by (simp add: assms)
  have "ext (snd (inference_body env m uri s)) = ext s5"
    unfolding body by (cases "m (rgba_to_rgb rgba)") (simp_all add: ext_post_process addLog_fields)
  moreover have "ext (runInference env uri s) = ext (snd (inference_body env m uri s))"
    using assms(1)
    by (cases "inference_body env m uri s"; cases "fst (inference_body env m uri s)")
      (simp_all add: runInference_def addLog_fields)
  ultimately show ?thesis
    using ext5 by simp
qed

lemma model_inference_body:
  "model (snd (inference_body env m uri s)) = model s \<and>
   modelState (snd (inference_body env m uri s)) = modelState s \<and>
   modelUri (snd (inference_body env m uri s)) = modelUri s"
  unfolding inference_body_def Let_def
  by (simp add: model_post_process addLog_fields call_fields split: sum.splits)

lemma model_runInference:
  "model (runInference env uri s) = model s \<and>
   modelState (runInference env uri s) = modelState s \<and>
   modelUri (runInference env uri s) = modelUri s"
proof (cases "model s")
  case None
  then show ?thesis
    by (simp add: runInference_def)
next
  case (Some m)
  obtain r s' where r: "inference_body env m uri s = (r, s')"
    by (cases "inference_body env m uri s")
  then have "model s' = model s \<and> modelState s' = modelState s \<and> modelUri s' = modelUri s"
    using model_inference_body [of env m uri s] by simp
  then show ?thesis
    using Some by (cases r) (simp_all add: runInference_def r addLog_fields)
qed

lemma model_pickAndDetect:
  "model (pickAndDetect env s) = model s \<and>
   modelState (pickAndDetect env s) = modelState s \<and>
   modelUri (pickAndDetect env s) = modelUri s"
  unfolding pickAndDetect_def Let_def
  by (simp add: model_runInference addLog_fields call_fields split: option.splits sum.splits)

lemma load_split:
  assumes "modelUri s = Some uri" and "uri \<noteq> []"
  shows "load env s = load_end env uri (load_begin env uri s)"
  using assms by (simp add: load_def load_begin_def load_end_def Let_def)

lemma reach_invariant:
  "reach s \<Longrightarrow> (modelUri s = None \<longrightarrow> model s = None) \<and> (modelState s \<noteq> Loaded \<longrightarrow> model s = None)"
proof (induction rule: reach.induct)
  case mount
  show ?case
    by (simp add: initial_def)
next
  case (asset s uri env)
  then show ?case
    by (simp add: load_begin_def call_fields addLog_fields)
next
  case (answer s uri env)
  then show ?case
    by (auto simp: load_end_def Let_def addLog_fields call_fields split: sum.splits)
next
  case (press s env)
  then show ?case
    by (simp add: model_pickAndDetect)
qed

lemma reach_guarded: "reach s \<Longrightarrow> modelState s \<noteq> Loaded \<Longrightarrow> model s = None"
  using reach_invariant by blast

lemma reach_load:
  assumes "reach s" and "modelUri s = None"
  shows "reach (load env (s\<lparr>modelUri := Some uri\<rparr>))"
proof (cases "uri = []")
  case True
  then show ?thesis
    using reach.asset [OF assms, of uri env] by (simp add: load_def)
next
  case False
  have b: "reach (load_begin env uri (s\<lparr>modelUri := Some uri\<rparr>))"
    using reach.asset [OF assms, of uri env] False by simp
  have "reach (load_end env uri (load_begin env uri (s\<lparr>modelUri := Some uri\<rparr>)))"
    by (rule reach.answer [OF b _ False])
      (simp_all add: load_begin_def call_fields addLog_fields)
  then show ?thesis
    using False by (simp add: load_split)
qed

section \<open>The properties of the specification\<close>

subsection \<open>C1: channel reduction of a frame\<close>

text \<open>
  C1, as the code has it. The output buffer is allocated with 320 * 320 * 3 = 307200 bytes
  whatever the input holds. For a decoded RGBA buffer of length \<open>4n\<close> with at most
  320 * 320 pixels, the output bytes at \<open>3i\<close>, \<open>3i + 1\<close>, \<open>3i + 2\<close> are the input bytes at
  \<open>4i\<close>, \<open>4i + 1\<close>, \<open>4i + 2\<close> for every pixel \<open>i < n\<close> (the alpha byte at \<open>4i + 3\<close> is
  never copied), and every output byte from \<open>3n\<close> on is zero. The length is \<open>3n\<close> exactly
  for the full frame, \<open>n = 320 * 320\<close>.
\<close>

theorem rgba_to_rgb_frame:
  "length (rgba_to_rgb rgba) = 307200 \<and>
   (length rgba = 4 * n \<and> n \<le> 320 * 320 \<longrightarrow>
      (\<forall>i<n. rgba_to_rgb rgba ! (3 * i) = rgba ! (4 * i) \<and>
              rgba_to_rgb rgba ! (3 * i + 1) = rgba ! (4 * i + 1) \<and>
              rgba_to_rgb rgba ! (3 * i + 2) = rgba ! (4 * i + 2)) \<and>
      (\<forall>k. 3 * n \<le> k \<and> k < 307200 \<longrightarrow> rgba_to_rgb rgba ! k = 0) \<and>
      (n = 320 * 320 \<longrightarrow> length (rgba_to_rgb rgba) = 3 * n))"
proof (intro conjI allI impI)
  show len: "length (rgba_to_rgb rgba) = 307200"
    by (simp add: length_rgba_to_rgb RGB_SIZE_eq)
  show "length (rgba_to_rgb rgba) = 3 * n" if "n = 320 * 320"
    using len that by simp
next
  fix i
  assume frame: "length rgba = 4 * n \<and> n \<le> 320 * 320" and i: "i < n"
  then have "i < 320 * 320"
    by simp
  moreover have "4 * i + 0 < length rgba" "4 * i + 1 < length rgba" "4 * i + 2 < length rgba"
    using i frame by simp_all
  ultimately show "rgba_to_rgb rgba ! (3 * i) = rgba ! (4 * i)"
    and "rgba_to_rgb rgba ! (3 * i + 1) = rgba ! (4 * i + 1)"
    and "rgba_to_rgb rgba ! (3 * i + 2) = rgba ! (4 * i + 2)"
    using rgba_to_rgb_pixel [of i 0 rgba] rgba_to_rgb_pixel [of i 1 rgba]
      rgba_to_rgb_pixel [of i 2 rgba] by simp_all
next
  fix k
  assume frame: "length rgba = 4 * n \<and> n \<le> 320 * 320" and k: "3 * n \<le> k \<and> k < 307200"
  then have "n \<le> k div 3"
    by (simp add: less_eq_div_iff_mult_less_eq mult.commute)
  then have "length rgba \<le> 4 * (k div 3)"
    using frame by simp
  with k show "rgba_to_rgb rgba ! k = 0"
    by (simp add: rgba_to_rgb_tail)
qed

text \<open>One pixel: three bytes copied, the alpha byte 255 dropped, zeros behind.\<close>

theorem rgba_to_rgb_frame_witness:
  "length [10, 20, 30, 255 :: u8] = 4 * 1 \<and> (1::nat) \<le> 320 * 320 \<and>
   length (rgba_to_rgb [10, 20, 30, 255]) = 307200 \<and>
   rgba_to_rgb [10, 20, 30, 255] ! 0 = 10 \<and>
   rgba_to_rgb [10, 20, 30, 255] ! 1 = 20 \<and>
   rgba_to_rgb [10, 20, 30, 255] ! 2 = 30 \<and>
   rgba_to_rgb [10, 20, 30, 255] ! 3 = 0"
proof -
  have h: "length [10, 20, 30, 255 :: u8] = 4 * 1 \<and> (1::nat) \<le> 320 * 320"
    by simp
  note th = rgba_to_rgb_frame [of "[10, 20, 30, 255]" 1]
  note fr = th [THEN conjunct2, rule_format, OF h]
  from fr have px: "\<forall>i<1. rgba_to_rgb [10, 20, 30, 255] ! (3 * i) = [10, 20, 30, 255] ! (4 * i) \<and>
            rgba_to_rgb [10, 20, 30, 255] ! (3 * i + 1) = [10, 20, 30, 255] ! (4 * i + 1) \<and>
            rgba_to_rgb [10, 20, 30, 255] ! (3 * i + 2) = [10, 20, 30, 255] ! (4 * i + 2)"
    by (rule conjunct1)
  from fr have tail: "\<forall>k. 3 * 1 \<le> k \<and> k < 307200 \<longrightarrow> rgba_to_rgb [10, 20, 30, 255] ! k = 0"
    by (rule conjunct2 [THEN conjunct1])
  have "rgba_to_rgb [10, 20, 30, 255] ! 3 = 0"
    using tail [rule_format, of 3] by simp
  moreover have "rgba_to_rgb [10, 20, 30, 255] ! 0 = 10 \<and>
     rgba_to_rgb [10, 20, 30, 255] ! 1 = 20 \<and> rgba_to_rgb [10, 20, 30, 255] ! 2 = 30"
    using px [rule_format, of 0] by (simp add: numeral_2_eq_2)
  moreover have "length (rgba_to_rgb [10, 20, 30, 255]) = 307200"
    using th by (rule conjunct1)
  ultimately show ?thesis
    using h by simp
qed

text \<open>For one pixel (\<open>n = 1\<close>) the output does not have length \<open>3n = 3\<close>.\<close>

theorem rgba_to_rgb_length_counterexample:
  "length [10, 20, 30, 255 :: u8] = 4 * 1 \<and> length (rgba_to_rgb [10, 20, 30, 255]) \<noteq> 3 * 1"
  by (simp add: length_rgba_to_rgb RGB_SIZE_eq)

subsection \<open>C2: the scenario and the order of the detections\<close>

text \<open>
  C2. For classes \<open>[2, 5, 0]\<close> and scores \<open>[0.82, 0.3, 0.91]\<close> the labelled detections are
  car with 0.82, then person with 0.91, and the loop logs the two FOUND lines in that
  order (the arrays have three entries, so the slots 3 to 24 of the loop read NaN); the
  log list, which grows at its head, then holds the entry of person in front of that of
  car. For every input, the lines logged are those of the detections, which are the slots
  \<open>0, \<dots>, 24\<close> that pass the threshold, in ascending slot order: nothing is sorted by score.
\<close>

theorem detections_in_slot_order:
  "detections [2, 5, 0] [0.82, 0.3, 0.91] = [(''car'', 0.82), (''person'', 0.91)] \<and>
   console (snd (detect_loop env (Some [2, 5, 0]) (Some [0.82, 0.3, 0.91]) 0 0 s)) =
     console s @ [found_prefix @ '' FOUND: car (82%)'', found_prefix @ '' FOUND: person (91%)''] \<and>
   logs (snd (detect_loop env (Some [2, 5, 0]) (Some [0.82, 0.3, 0.91]) 0 0 s)) =
     [''['' @ time env (Suc (clock s)) @ ''] '' @ found_prefix @ '' FOUND: person (91%)'',
      ''['' @ time env (clock s) @ ''] '' @ found_prefix @ '' FOUND: car (82%)''] @ logs s \<and>
   console (snd (detect_loop env (Some cs) (Some ss) 0 0 s)) =
     console s @ map (\<lambda>(l, x). found_msg l (Num x)) (detections cs ss) \<and>
   detections cs ss =
     map (\<lambda>k. (label_of (Number_at cs k), ss ! k))
       (filter (\<lambda>k. k < length ss \<and> 0.4 < ss ! k) [0..<25])"
proof (intro conjI)
  show "detections [2, 5, 0] [0.82, 0.3, 0.91] = [(''car'', 0.82), (''person'', 0.91)]"
    by code_simp
  have h: "hits [0.82, 0.3, 0.91] 0 = [0, 2]"
    by code_simp
  have m0: "slot_msg [2, 5, 0] [0.82, 0.3, 0.91] 0 = found_prefix @ '' FOUND: car (82%)''"
    by code_simp
  have m2: "slot_msg [2, 5, 0] [0.82, 0.3, 0.91] 2 = found_prefix @ '' FOUND: person (91%)''"
    by code_simp
  show "console (snd (detect_loop env (Some [2, 5, 0]) (Some [0.82, 0.3, 0.91]) 0 0 s)) =
     console s @ [found_prefix @ '' FOUND: car (82%)'', found_prefix @ '' FOUND: person (91%)'']"
    unfolding emitted_lines h using m0 m2 by simp
  show "logs (snd (detect_loop env (Some [2, 5, 0]) (Some [0.82, 0.3, 0.91]) 0 0 s)) =
     [''['' @ time env (Suc (clock s)) @ ''] '' @ found_prefix @ '' FOUND: person (91%)'',
      ''['' @ time env (clock s) @ ''] '' @ found_prefix @ '' FOUND: car (82%)''] @ logs s"
    unfolding detect_loop_Some h using m0 m2 by (simp add: logs_add_logs)
  show "console (snd (detect_loop env (Some cs) (Some ss) 0 0 s)) =
     console s @ map (\<lambda>(l, x). found_msg l (Num x)) (detections cs ss)"
    unfolding emitted_lines detections_lines ..
  show "detections cs ss =
     map (\<lambda>k. (label_of (Number_at cs k), ss ! k))
       (filter (\<lambda>k. k < length ss \<and> 0.4 < ss ! k) [0..<25])"
    by (simp add: detections_def hits_0)
qed

subsection \<open>C3: the threshold is strict\<close>

text \<open>
  C3. At every slot \<open>i\<close> of the loop that holds a score: a score equal to the threshold 0.4
  makes the iteration pass on with the same count and the same log, and the slot is not
  among the slots reported; a score strictly greater makes it log the FOUND line of the
  slot and count it, and the slot is reported. The whole loop logs exactly the lines of
  the reported slots.
\<close>

theorem threshold_is_strict:
  assumes "i < 25" and "i < length ss"
  shows "(ss ! i = 0.4 \<longrightarrow>
            detect_loop env (Some cs) (Some ss) i count s =
            detect_loop env (Some cs) (Some ss) (i + 1) count s \<and>
            i \<notin> set (hits ss 0)) \<and>
         (0.4 < ss ! i \<longrightarrow>
            detect_loop env (Some cs) (Some ss) i count s =
            detect_loop env (Some cs) (Some ss) (i + 1) (count + 1)
              (addLog env (found_msg (label_of (Number_at cs i)) (Num (ss ! i))) s) \<and>
            i \<in> set (hits ss 0)) \<and>
         detect_loop env (Some cs) (Some ss) 0 0 s =
           (Inr (length (hits ss 0)), add_logs env (map (slot_msg cs ss) (hits ss 0)) s)"
proof (intro conjI impI)
  assume eq: "ss ! i = 0.4"
  then have "\<not> js_gt (Number_at ss i) 0.4"
    by (simp add: js_gt_Number_at)
  with assms(1) show "detect_loop env (Some cs) (Some ss) i count s =
      detect_loop env (Some cs) (Some ss) (i + 1) count s"
    by (rule detect_loop_miss)
  show "i \<notin> set (hits ss 0)"
    using eq by (simp add: set_hits)
next
  assume gt: "0.4 < ss ! i"
  with assms show "detect_loop env (Some cs) (Some ss) i count s =
      detect_loop env (Some cs) (Some ss) (i + 1) (count + 1)
        (addLog env (found_msg (label_of (Number_at cs i)) (Num (ss ! i))) s)"
    by (rule detect_loop_hit)
  show "i \<in> set (hits ss 0)"
    using assms gt by (simp add: set_hits)
next
  show "detect_loop env (Some cs) (Some ss) 0 0 s =
      (Inr (length (hits ss 0)), add_logs env (map (slot_msg cs ss) (hits ss 0)) s)"
    by (simp add: detect_loop_Some)
qed

text \<open>Scores 0.4 at slot 0 (left out) and 0.41 at slot 1 (reported).\<close>

theorem threshold_is_strict_witness:
  "(0::nat) < 25 \<and> 0 < length [0.4, 0.41 :: rat] \<and> [0.4, 0.41 :: rat] ! 0 = 0.4 \<and>
   detect_loop example_env (Some [2, 2]) (Some [0.4, 0.41]) 0 0 initial =
     detect_loop example_env (Some [2, 2]) (Some [0.4, 0.41]) (0 + 1) 0 initial \<and>
   0 \<notin> set (hits [0.4, 0.41] 0) \<and>
   (1::nat) < 25 \<and> 1 < length [0.4, 0.41 :: rat] \<and> 0.4 < [0.4, 0.41 :: rat] ! 1 \<and>
   detect_loop example_env (Some [2, 2]) (Some [0.4, 0.41]) 1 0 initial =
     detect_loop example_env (Some [2, 2]) (Some [0.4, 0.41]) (1 + 1) (0 + 1)
       (addLog example_env
          (found_msg (label_of (Number_at [2, 2] 1)) (Num ([0.4, 0.41] ! 1))) initial) \<and>
   1 \<in> set (hits [0.4, 0.41] 0)"
proof -
  have a0: "(0::nat) < 25" and b0: "0 < length [0.4, 0.41 :: rat]"
    and c0: "[0.4, 0.41 :: rat] ! 0 = 0.4"
    by simp_all
  have a1: "(1::nat) < 25" and b1: "1 < length [0.4, 0.41 :: rat]"
    and c1: "0.4 < [0.4, 0.41 :: rat] ! 1"
    by simp_all
  note t0 = threshold_is_strict [OF a0 b0, of example_env "[2, 2]" 0 initial,
      THEN conjunct1, rule_format, OF c0]
  note t1 = threshold_is_strict [OF a1 b1, of example_env "[2, 2]" 0 initial,
      THEN conjunct2, THEN conjunct1, rule_format, OF c1]
  show ?thesis
    using a0 b0 c0 a1 b1 c1 t0 t1 by blast
qed

subsection \<open>C4: labels of unmapped class ids\<close>

text \<open>
  C4. A class id that is not a key of the label table (0, 1, 2, 3, 5, 7, 9) gets the
  label "Class " followed by the id, written in decimal (a minus sign for a negative id,
  then digits only, which denote its magnitude, with no leading zero); class id 42 gives
  "Class 42". The loop emits that label: at a slot that passes the threshold and holds
  such an id, the iteration logs the FOUND line with the label "Class " and the id and
  goes on to the next slot, and the line is among those the whole loop adds to the
  console; for class id 42 alone with score 0.5 the loop logs exactly the line
  "FOUND: Class 42 (50%)". The loop does not fail on any class id.
\<close>

theorem unmapped_class_label:
  assumes "c \<notin> {0, 1, 2, 3, 5, 7, 9}"
  shows "COCO_LABELS c = None \<and>
         label_of (Num c) = ''Class '' @ to_string (Num c) \<and>
         to_string (Num c) = (if c < 0 then ''-'' @ dec (nat (- c)) else dec (nat c)) \<and>
         read_nat (dec (nat \<bar>c\<bar>)) = nat \<bar>c\<bar> \<and>
         set (dec (nat \<bar>c\<bar>)) \<subseteq> set ''0123456789'' \<and>
         hd (dec (nat \<bar>c\<bar>)) \<noteq> CHR ''0'' \<and>
         label_of (Num 42) = ''Class 42'' \<and>
         (i < 25 \<and> i < length ss \<and> 0.4 < ss ! i \<and> i < length cs \<and> cs ! i = c \<longrightarrow>
            detect_loop env (Some cs) (Some ss) i count s =
              detect_loop env (Some cs) (Some ss) (i + 1) (count + 1)
                (addLog env (found_msg (''Class '' @ to_string (Num c)) (Num (ss ! i))) s) \<and>
            found_msg (''Class '' @ to_string (Num c)) (Num (ss ! i)) \<in>
              set (drop (length (console s))
                (console (snd (detect_loop env (Some cs) (Some ss) 0 0 s))))) \<and>
         console (snd (detect_loop env (Some [42]) (Some [0.5]) 0 0 s)) =
           console s @ [found_prefix @ '' FOUND: Class 42 (50%)''] \<and>
         fst (detect_loop env (Some cs) (Some ss) 0 0 s) = Inr (length (hits ss 0))"
proof (intro conjI impI)
  show none: "COCO_LABELS c = None"
    using assms by (simp add: COCO_LABELS_def)
  show lab: "label_of (Num c) = ''Class '' @ to_string (Num c)"
    unfolding label_of_def lookup_label.simps none or_else.simps ..
  show "to_string (Num c) = (if c < 0 then ''-'' @ dec (nat (- c)) else dec (nat c))"
    by simp
  show "read_nat (dec (nat \<bar>c\<bar>)) = nat \<bar>c\<bar>"
    by (rule read_nat_dec)
  show "set (dec (nat \<bar>c\<bar>)) \<subseteq> set ''0123456789''"
    by (rule set_dec)
  have "c \<noteq> 0"
    using assms by auto
  then show "hd (dec (nat \<bar>c\<bar>)) \<noteq> CHR ''0''"
    by (intro hd_dec) simp
  show "label_of (Num 42) = ''Class 42''"
    by code_simp
  show "fst (detect_loop env (Some cs) (Some ss) 0 0 s) = Inr (length (hits ss 0))"
    by (simp add: detect_loop_Some)
  have h: "hits [0.5] 0 = [0]"
    by code_simp
  have m: "slot_msg [42] [0.5] 0 = found_prefix @ '' FOUND: Class 42 (50%)''"
    by code_simp
  show "console (snd (detect_loop env (Some [42]) (Some [0.5]) 0 0 s)) =
      console s @ [found_prefix @ '' FOUND: Class 42 (50%)'']"
    unfolding emitted_lines h using m by simp
next
  assume slot: "i < 25 \<and> i < length ss \<and> 0.4 < ss ! i \<and> i < length cs \<and> cs ! i = c"
  have lab: "label_of (Number_at cs i) = ''Class '' @ to_string (Num c)"
    using slot assms by (simp add: Number_at_in_range label_of_def COCO_LABELS_def)
  show "detect_loop env (Some cs) (Some ss) i count s =
      detect_loop env (Some cs) (Some ss) (i + 1) (count + 1)
        (addLog env (found_msg (''Class '' @ to_string (Num c)) (Num (ss ! i))) s)"
    using slot detect_loop_hit [of i ss env cs count s] unfolding lab by simp
  have "i \<in> set (hits ss 0)"
    using slot by (simp add: set_hits)
  then have "slot_msg cs ss i \<in> set (map (slot_msg cs ss) (hits ss 0))"
    by simp
  moreover have "slot_msg cs ss i = found_msg (''Class '' @ to_string (Num c)) (Num (ss ! i))"
    unfolding slot_msg_def lab ..
  ultimately show "found_msg (''Class '' @ to_string (Num c)) (Num (ss ! i)) \<in>
      set (drop (length (console s)) (console (snd (detect_loop env (Some cs) (Some ss) 0 0 s))))"
    by (simp add: emitted_lines)
qed

text \<open>Class id 42, alone in slot 0 with score 0.5, in the initial state.\<close>

theorem unmapped_class_label_witness:
  "(42::int) \<notin> {0, 1, 2, 3, 5, 7, 9} \<and> COCO_LABELS 42 = None \<and>
   label_of (Num 42) = ''Class 42'' \<and> to_string (Num 42) = ''42'' \<and>
   (0::nat) < 25 \<and> 0 < length [0.5 :: rat] \<and> 0.4 < [0.5 :: rat] ! 0 \<and>
   0 < length [42 :: int] \<and> [42 :: int] ! 0 = 42 \<and>
   detect_loop example_env (Some [42]) (Some [0.5]) 0 0 initial =
     detect_loop example_env (Some [42]) (Some [0.5]) (0 + 1) (0 + 1)
       (addLog example_env (found_msg ''Class 42'' (Num ([0.5] ! 0))) initial) \<and>
   found_msg ''Class 42'' (Num ([0.5] ! 0)) \<in>
     set (drop (length (console initial))
       (console (snd (detect_loop example_env (Some [42]) (Some [0.5]) 0 0 initial)))) \<and>
   console (snd (detect_loop example_env (Some [42]) (Some [0.5]) 0 0 initial)) =
     console initial @ [found_prefix @ '' FOUND: Class 42 (50%)''] \<and>
   fst (detect_loop example_env (Some [42]) (Some [0.5]) 0 0 initial) = Inr 1"
proof -
  have h: "(42::int) \<notin> {0, 1, 2, 3, 5, 7, 9}"
    by simp
  have i: "(0::nat) < 25 \<and> 0 < length [0.5 :: rat] \<and> 0.4 < [0.5 :: rat] ! 0 \<and>
      0 < length [42 :: int] \<and> [42 :: int] ! 0 = 42"
    by simp
  have str: "to_string (Num 42) = ''42''"
    by code_simp
  have cl: "''Class '' @ to_string (Num 42) = ''Class 42''"
    by code_simp
  have hit: "hits [0.5] 0 = [0]"
    by code_simp
  note th = unmapped_class_label [OF h, of 0 "[0.5]" "[42]" example_env 0 initial]
  have none: "COCO_LABELS 42 = None" and lab: "label_of (Num 42) = ''Class 42''"
    using th by blast+
  have slot: "detect_loop example_env (Some [42]) (Some [0.5]) 0 0 initial =
     detect_loop example_env (Some [42]) (Some [0.5]) (0 + 1) (0 + 1)
       (addLog example_env (found_msg ''Class 42'' (Num ([0.5] ! 0))) initial) \<and>
     found_msg ''Class 42'' (Num ([0.5] ! 0)) \<in>
       set (drop (length (console initial))
         (console (snd (detect_loop example_env (Some [42]) (Some [0.5]) 0 0 initial))))"
    using th [THEN conjunct2, THEN conjunct2, THEN conjunct2, THEN conjunct2, THEN conjunct2,
        THEN conjunct2, THEN conjunct2, THEN conjunct1, rule_format, OF i]
    unfolding cl .
  have con: "console (snd (detect_loop example_env (Some [42]) (Some [0.5]) 0 0 initial)) =
     console initial @ [found_prefix @ '' FOUND: Class 42 (50%)'']"
    using th by blast
  have "fst (detect_loop example_env (Some [42]) (Some [0.5]) 0 0 initial) = Inr (length (hits [0.5] 0))"
    using th by blast
  then have cnt: "fst (detect_loop example_env (Some [42]) (Some [0.5]) 0 0 initial) = Inr 1"
    unfolding hit by simp
  show ?thesis
    using h i none lab str slot con cnt by blast
qed

subsection \<open>C5: no detections is not an error\<close>

text \<open>
  C5. If no score among the 25 slots exceeds the threshold, post-processing returns
  normally, logs the single line "No objects detected > 40%" and no FOUND line, and the
  sequence of detections is empty. A processing failure is reported differently: when
  the body of \<^verbatim>\<open>runInference\<close> throws \<open>e\<close>, the line logged is "Inference Error: " followed
  by \<open>e\<close>, which is never the line of the empty result.
\<close>

theorem no_detections_outcome:
  assumes "scores_t output = Some ss" and "\<forall>k<25. k < length ss \<longrightarrow> ss ! k \<le> 0.4"
  shows "post_process env output s =
           (Inr (), (addLog env ''No objects detected > 40%'' s)\<lparr>processing := False\<rparr>) \<and>
         console (snd (post_process env output s)) = console s @ [''No objects detected > 40%''] \<and>
         detections cs ss = [] \<and>
         (model s0 = Some m \<and> fst (inference_body env m uri s0) = Inl e \<longrightarrow>
            console (runInference env uri s0) =
              console (snd (inference_body env m uri s0)) @ [''Inference Error: '' @ e] \<and>
            ''Inference Error: '' @ e \<noteq> ''No objects detected > 40%'')"
proof -
  have no: "hits ss 0 = []"
    using assms(2) by (rule hits_empty)
  then have loop: "detect_loop env (classes_t output) (scores_t output) 0 0 s = (Inr 0, s)"
    unfolding assms(1) by (rule detect_loop_no_hits)
  have pp: "post_process env output s =
      (Inr (), (addLog env ''No objects detected > 40%'' s)\<lparr>processing := False\<rparr>)"
    by (simp add: post_process_def loop)
  have "console (snd (post_process env output s)) = console s @ [''No objects detected > 40%'']"
    unfolding pp by (simp add: addLog_fields)
  moreover have "detections cs ss = []"
    by (simp add: detections_def no)
  moreover have "console (runInference env uri s0) =
      console (snd (inference_body env m uri s0)) @ [''Inference Error: '' @ e] \<and>
      ''Inference Error: '' @ e \<noteq> ''No objects detected > 40%''"
    if "model s0 = Some m \<and> fst (inference_body env m uri s0) = Inl e"
    using that by (simp add: runInference_failure addLog_fields)
  ultimately show ?thesis
    using pp by blast
qed

text \<open>
  Scores 0.3 and 0.4: the empty result. A model whose \<^verbatim>\<open>runSync\<close> throws: the error line.
\<close>

theorem no_detections_outcome_witness:
  "scores_t \<lparr>tensors = 4, classes_t = Some [2, 5], scores_t = Some [0.3, 0.4]\<rparr> = Some [0.3, 0.4] \<and>
   post_process example_env \<lparr>tensors = 4, classes_t = Some [2, 5], scores_t = Some [0.3, 0.4]\<rparr> initial =
     (Inr (), (addLog example_env ''No objects detected > 40%'' initial)\<lparr>processing := False\<rparr>) \<and>
   console (snd (post_process example_env
       \<lparr>tensors = 4, classes_t = Some [2, 5], scores_t = Some [0.3, 0.4]\<rparr> initial)) =
     [''No objects detected > 40%''] \<and>
   detections [2, 5] [0.3, 0.4] = [] \<and>
   model (initial\<lparr>model := Some failing_model\<rparr>) = Some failing_model \<and>
   fst (inference_body example_env failing_model ''photo.jpg'' (initial\<lparr>model := Some failing_model\<rparr>)) =
     Inl ''Error: runSync failed'' \<and>
   console (runInference example_env ''photo.jpg'' (initial\<lparr>model := Some failing_model\<rparr>)) =
     [''Running inference on image...'', ''Inference Error: Error: runSync failed'']"
proof -
  let ?out = "\<lparr>tensors = 4, classes_t = Some [2, 5], scores_t = Some [0.3, 0.4 :: rat]\<rparr>"
  let ?s0 = "initial\<lparr>model := Some failing_model\<rparr>"
  have h1: "scores_t ?out = Some [0.3, 0.4]"
    by simp
  have h2: "\<forall>k<25. k < length [0.3, 0.4 :: rat] \<longrightarrow> [0.3, 0.4 :: rat] ! k \<le> 0.4"
    by (simp add: nth_Cons' less_Suc_eq)
  have h3: "model ?s0 = Some failing_model \<and>
      fst (inference_body example_env failing_model ''photo.jpg'' ?s0) = Inl ''Error: runSync failed''"
    by (simp add: inference_body_def example_env_def failing_model_def Let_def)
  have c: "console (snd (inference_body example_env failing_model ''photo.jpg'' ?s0)) =
      [''Running inference on image...'']"
    by (simp add: inference_body_def example_env_def failing_model_def Let_def
        call_fields addLog_fields initial_def)
  note th = no_detections_outcome [OF h1 h2, of example_env initial "[2, 5]" ?s0 failing_model
      "''photo.jpg''" "''Error: runSync failed''"]
  have "console (runInference example_env ''photo.jpg'' ?s0) =
      [''Running inference on image...'', ''Inference Error: Error: runSync failed'']"
    using th [THEN conjunct2, THEN conjunct2, THEN conjunct2, rule_format, OF h3] c by simp
  moreover have "console (snd (post_process example_env ?out initial)) = [''No objects detected > 40%'']"
    using th [THEN conjunct2, THEN conjunct1] by (simp add: initial_def)
  ultimately show ?thesis
    using h1 h3 th by blast
qed

subsection \<open>C6: the guard on the model\<close>

text \<open>
  C6. In every state the component can reach, also between the start of the load and the
  answer of the library and after a load that failed: when \<^verbatim>\<open>pickAndDetect\<close> is invoked
  while the model state is not loaded, it logs "Wait for model to load." and returns; it
  makes no call to any external library. In such a state no model is held, so the
  inner \<^verbatim>\<open>runInference\<close>, which \<^verbatim>\<open>pickAndDetect\<close> calls only behind its guard, would not
  touch a library either.
\<close>

theorem guard_when_not_loaded:
  assumes "reach s" and "modelState s \<noteq> Loaded"
  shows "pickAndDetect env s = addLog env ''Wait for model to load.'' s \<and>
         ext (pickAndDetect env s) = ext s \<and>
         console (pickAndDetect env s) = console s @ [''Wait for model to load.''] \<and>
         logs (pickAndDetect env s) =
           (''['' @ time env (clock s) @ ''] Wait for model to load.'') # logs s \<and>
         ext (runInference env uri s) = ext s"
proof -
  have m: "model s = None"
    using assms by (rule reach_guarded)
  then have "pickAndDetect env s = addLog env ''Wait for model to load.'' s"
    by (simp add: pickAndDetect_def)
  moreover have "runInference env uri s = s"
    using m by (simp add: runInference_def)
  ultimately show ?thesis
    by (simp add: addLog_fields)
qed

text \<open>The initial state, and the state after a load that failed.\<close>

theorem guard_when_not_loaded_witness:
  "reach initial \<and> modelState initial \<noteq> Loaded \<and>
   console (pickAndDetect example_env initial) = [''Wait for model to load.''] \<and>
   logs (pickAndDetect example_env initial) = [''[12:00:00] Wait for model to load.''] \<and>
   ext (pickAndDetect example_env initial) = [] \<and>
   reach (load example_env (initial\<lparr>modelUri := Some ''other.tflite''\<rparr>)) \<and>
   modelState (load example_env (initial\<lparr>modelUri := Some ''other.tflite''\<rparr>)) = Error \<and>
   ext (pickAndDetect example_env (load example_env (initial\<lparr>modelUri := Some ''other.tflite''\<rparr>))) =
     [LoadTensorflowModel ''other.tflite'']"
proof -
  let ?s = "load example_env (initial\<lparr>modelUri := Some ''other.tflite''\<rparr>)"
  have r0: "reach initial"
    by (rule reach.mount)
  have n0: "modelState initial \<noteq> Loaded"
    by (simp add: initial_def)
  have r1: "reach ?s"
    using r0 by (rule reach_load) (simp add: initial_def)
  have e1: "modelState ?s = Error"
    by (simp add: load_def initial_def example_env_def Let_def addLog_def call_def)
  then have n1: "modelState ?s \<noteq> Loaded"
    by simp
  have x1: "ext ?s = [LoadTensorflowModel ''other.tflite'']"
    by (simp add: load_def initial_def example_env_def Let_def addLog_def call_def)
  have f: "console initial = []" "logs initial = []" "ext initial = []" "clock initial = 0"
    "time example_env 0 = ''12:00:00''"
    by (simp_all add: initial_def example_env_def)
  have "console (pickAndDetect example_env initial) = [''Wait for model to load.''] \<and>
      logs (pickAndDetect example_env initial) = [''[12:00:00] Wait for model to load.''] \<and>
      ext (pickAndDetect example_env initial) = []"
    using guard_when_not_loaded [OF r0 n0, of example_env "''photo.jpg''", THEN conjunct2]
    by (simp add: f)
  moreover have "ext (pickAndDetect example_env ?s) = [LoadTensorflowModel ''other.tflite'']"
    using guard_when_not_loaded [OF r1 n1, of example_env "''photo.jpg''", THEN conjunct2]
    by (simp add: x1)
  ultimately show ?thesis
    using r0 n0 r1 e1 by blast
qed

subsection \<open>C7: post-processing depends on its inputs only\<close>

text \<open>
  C7. The outcome of the loop and the lines it logs are the same in every state and
  environment it is run in (whatever the clock, the earlier log and the earlier console
  lines): they are a function of the class ids and the scores, namely the lines of the
  detections in order. The threshold is the constant 0.4 of the code.
\<close>

theorem post_processing_deterministic:
  "fst (detect_loop env1 (Some cs) (Some ss) 0 0 s1) =
   fst (detect_loop env2 (Some cs) (Some ss) 0 0 s2) \<and>
   drop (length (console s1)) (console (snd (detect_loop env1 (Some cs) (Some ss) 0 0 s1))) =
   drop (length (console s2)) (console (snd (detect_loop env2 (Some cs) (Some ss) 0 0 s2))) \<and>
   drop (length (console s1)) (console (snd (detect_loop env1 (Some cs) (Some ss) 0 0 s1))) =
   map (\<lambda>(l, x). found_msg l (Num x)) (detections cs ss)"
  by (simp add: detect_loop_Some console_add_logs detections_lines)

subsection \<open>C8: the log grows at its head\<close>

text \<open>
  C8. A call of \<^verbatim>\<open>addLog\<close> puts exactly one entry, the time stamp in brackets followed by
  the message, in front of the log; the entries that were there stay behind it, unchanged
  and in their order. After several calls the new entries stand newest first in front of
  the old log.
\<close>

theorem addLog_prepends:
  "logs (addLog env msg s) = (''['' @ time env (clock s) @ ''] '' @ msg) # logs s \<and>
   length (logs (addLog env msg s)) = Suc (length (logs s)) \<and>
   tl (logs (addLog env msg s)) = logs s \<and>
   logs (add_logs env msgs s) = rev (stamped env (clock s) msgs) @ logs s \<and>
   drop (length msgs) (logs (add_logs env msgs s)) = logs s"
proof -
  have "length (stamped env n msgs) = length msgs" for n
    by (induction msgs arbitrary: n) simp_all
  then show ?thesis
    by (simp add: addLog_fields logs_add_logs)
qed

subsection \<open>C9: the output buffer has a fixed size\<close>

text \<open>
  C9. For a decoded buffer of any length the output has 307200 bytes. Byte \<open>k\<close> of the
  output is byte \<open>4 (k div 3) + k mod 3\<close> of the input when the input has that byte, and zero
  otherwise; so the bytes of pixels past the first 320 * 320 are dropped (the output is
  that of the input cut to 4 * 320 * 320 bytes), and behind the last input pixel the output
  stays zero. No length makes the conversion fail: whatever buffer the decoder returns,
  \<^verbatim>\<open>runInference\<close> goes on to call \<^verbatim>\<open>runSync\<close> with the converted buffer.
\<close>

theorem rgba_to_rgb_fixed_size:
  "length (rgba_to_rgb rgba) = 307200 \<and>
   (\<forall>k<307200. rgba_to_rgb rgba ! k =
      (if 4 * (k div 3) + k mod 3 < length rgba then rgba ! (4 * (k div 3) + k mod 3) else 0)) \<and>
   rgba_to_rgb rgba = rgba_to_rgb (take (4 * (320 * 320)) rgba) \<and>
   (\<forall>k<307200. length rgba \<le> 4 * (k div 3) \<longrightarrow> rgba_to_rgb rgba ! k = 0) \<and>
   (model s = Some m \<and> manipulateAsync env uri = Inr u \<and> base64 env u = Inr b \<and>
    jpeg_decode env b = Inr rgba \<longrightarrow>
      ext (runInference env uri s) =
        ext s @ [ManipulateAsync uri, FileBase64 u, JpegDecode b, RunSync (rgba_to_rgb rgba)])"
proof (intro conjI allI impI)
  show "length (rgba_to_rgb rgba) = 307200"
    by (simp add: length_rgba_to_rgb RGB_SIZE_eq)
next
  fix k :: nat
  assume "k < 307200"
  then show "rgba_to_rgb rgba ! k =
      (if 4 * (k div 3) + k mod 3 < length rgba then rgba ! (4 * (k div 3) + k mod 3) else 0)"
    by (simp add: nth_rgba_to_rgb RGB_SIZE_eq)
next
  show "rgba_to_rgb rgba = rgba_to_rgb (take (4 * (320 * 320)) rgba)"
    by (simp only: rgba_to_rgb_take)
next
  fix k :: nat
  assume "k < 307200" and "length rgba \<le> 4 * (k div 3)"
  then show "rgba_to_rgb rgba ! k = 0"
    by (rule rgba_to_rgb_tail)
next
  assume "model s = Some m \<and> manipulateAsync env uri = Inr u \<and> base64 env u = Inr b \<and>
    jpeg_decode env b = Inr rgba"
  then show "ext (runInference env uri s) =
      ext s @ [ManipulateAsync uri, FileBase64 u, JpegDecode b, RunSync (rgba_to_rgb rgba)]"
    by (simp add: ext_runInference)
qed

text \<open>
  A decoded buffer of five bytes, not a multiple of four: the second pixel has its red
  byte only, and the run still reaches \<^verbatim>\<open>runSync\<close>.
\<close>

theorem rgba_to_rgb_fixed_size_witness:
  "length (rgba_to_rgb [1, 2, 3, 4, 5]) = 307200 \<and>
   (3::nat) < 307200 \<and> rgba_to_rgb [1, 2, 3, 4, 5] ! 3 = 5 \<and>
   (4::nat) < 307200 \<and> rgba_to_rgb [1, 2, 3, 4, 5] ! 4 = 0 \<and>
   (6::nat) < 307200 \<and> length [1, 2, 3, 4, 5 :: u8] \<le> 4 * (6 div 3) \<and>
   rgba_to_rgb [1, 2, 3, 4, 5] ! 6 = 0 \<and>
   model (initial\<lparr>model := Some example_model\<rparr>) = Some example_model \<and>
   manipulateAsync (example_env\<lparr>jpeg_decode := \<lambda>b64. Inr [1, 2, 3, 4, 5]\<rparr>) ''photo.jpg'' =
     Inr ''resized.jpg'' \<and>
   base64 (example_env\<lparr>jpeg_decode := \<lambda>b64. Inr [1, 2, 3, 4, 5]\<rparr>) ''resized.jpg'' = Inr ''AAAA'' \<and>
   jpeg_decode (example_env\<lparr>jpeg_decode := \<lambda>b64. Inr [1, 2, 3, 4, 5]\<rparr>) ''AAAA'' =
     Inr [1, 2, 3, 4, 5] \<and>
   ext (runInference (example_env\<lparr>jpeg_decode := \<lambda>b64. Inr [1, 2, 3, 4, 5]\<rparr>) ''photo.jpg''
          (initial\<lparr>model := Some example_model\<rparr>)) =
     [ManipulateAsync ''photo.jpg'', FileBase64 ''resized.jpg'', JpegDecode ''AAAA'',
      RunSync (rgba_to_rgb [1, 2, 3, 4, 5])]"
proof -
  let ?env = "example_env\<lparr>jpeg_decode := \<lambda>b64. Inr [1, 2, 3, 4, 5]\<rparr>"
  let ?s = "initial\<lparr>model := Some example_model\<rparr>"
  note th = rgba_to_rgb_fixed_size [of "[1, 2, 3, 4, 5]" ?s example_model ?env "''photo.jpg''"
      "''resized.jpg''" "''AAAA''"]
  have k3: "(3::nat) < 307200" and k4: "(4::nat) < 307200" and k6: "(6::nat) < 307200"
    by simp_all
  have l6: "length [1, 2, 3, 4, 5 :: u8] \<le> 4 * (6 div 3)"
    by simp
  have run: "model ?s = Some example_model \<and> manipulateAsync ?env ''photo.jpg'' = Inr ''resized.jpg'' \<and>
      base64 ?env ''resized.jpg'' = Inr ''AAAA'' \<and> jpeg_decode ?env ''AAAA'' = Inr [1, 2, 3, 4, 5]"
    by (simp add: example_env_def)
  have e0: "ext ?s = []"
    by (simp add: initial_def)
  from th have a: "length (rgba_to_rgb [1, 2, 3, 4, 5]) = 307200"
    by (rule conjunct1)
  from th have b: "\<forall>k<307200. rgba_to_rgb [1, 2, 3, 4, 5] ! k =
      (if 4 * (k div 3) + k mod 3 < length [1, 2, 3, 4, 5 :: u8]
       then [1, 2, 3, 4, 5] ! (4 * (k div 3) + k mod 3) else 0)"
    by (rule conjunct2 [THEN conjunct1])
  from th have c: "\<forall>k<307200. length [1, 2, 3, 4, 5 :: u8] \<le> 4 * (k div 3) \<longrightarrow>
      rgba_to_rgb [1, 2, 3, 4, 5] ! k = 0"
    by (rule conjunct2 [THEN conjunct2, THEN conjunct2, THEN conjunct1])
  have "rgba_to_rgb [1, 2, 3, 4, 5] ! 3 = 5"
    using b [rule_format, OF k3] by simp
  moreover have "rgba_to_rgb [1, 2, 3, 4, 5] ! 4 = 0"
    using b [rule_format, OF k4] by simp
  moreover have "rgba_to_rgb [1, 2, 3, 4, 5] ! 6 = 0"
    using c [rule_format, OF k6 l6] .
  moreover have "ext (runInference ?env ''photo.jpg'' ?s) =
      [ManipulateAsync ''photo.jpg'', FileBase64 ''resized.jpg'', JpegDecode ''AAAA'',
       RunSync (rgba_to_rgb [1, 2, 3, 4, 5])]"
    using th [THEN conjunct2, THEN conjunct2, THEN conjunct2, THEN conjunct2, rule_format, OF run]
    unfolding e0 by simp
  ultimately show ?thesis
    using a k3 k4 k6 l6 run by blast
qed

subsection \<open>C10: score arrays shorter than 25\<close>

text \<open>
  C10. The loop always runs over the 25 slots: entries past slot 24 are never read (the
  result is that of the arrays cut to 25 entries). For a score array shorter than 25, a
  missing slot reads as NaN, which is not greater than the threshold; from the first
  missing slot on the loop ends normally with the count and the state it has, and the
  whole loop ends normally with the lines of the slots that exist and pass. Slot 24 is
  the last one read: a passing score there is logged and counted, and from slot 25 the
  loop is over.
\<close>

theorem short_score_array:
  "(length ss < 25 \<longrightarrow>
      (\<forall>i. length ss \<le> i \<longrightarrow> Number_at ss i = NaN \<and> \<not> js_gt (Number_at ss i) 0.4) \<and>
      detect_loop env (Some cs) (Some ss) (length ss) count s = (Inr count, s) \<and>
      detect_loop env (Some cs) (Some ss) 0 0 s =
        (Inr (length (filter (\<lambda>k. 0.4 < ss ! k) [0..<length ss])),
         add_logs env (map (slot_msg cs ss) (filter (\<lambda>k. 0.4 < ss ! k) [0..<length ss])) s)) \<and>
   detect_loop env (Some cs) (Some ss) 0 0 s =
     detect_loop env (Some (take 25 cs)) (Some (take 25 ss)) 0 0 s \<and>
   (24 < length ss \<and> 0.4 < ss ! 24 \<longrightarrow>
      detect_loop env (Some cs) (Some ss) 24 count s =
        (Inr (count + 1),
         addLog env (found_msg (label_of (Number_at cs 24)) (Num (ss ! 24))) s)) \<and>
   detect_loop env (Some cs) (Some ss) 25 count s = (Inr count, s)"
proof (intro conjI impI allI)
  fix i
  assume "length ss \<le> i"
  then show "Number_at ss i = NaN" and "\<not> js_gt (Number_at ss i) 0.4"
    by (simp_all add: Number_at_out_of_range)
next
  show "detect_loop env (Some cs) (Some ss) (length ss) count s = (Inr count, s)"
    by (simp add: detect_loop_Some hits_from_length add_logs_Nil)
next
  assume "length ss < 25"
  then show "detect_loop env (Some cs) (Some ss) 0 0 s =
        (Inr (length (filter (\<lambda>k. 0.4 < ss ! k) [0..<length ss])),
         add_logs env (map (slot_msg cs ss) (filter (\<lambda>k. 0.4 < ss ! k) [0..<length ss])) s)"
    by (simp add: detect_loop_Some hits_short)
next
  show "detect_loop env (Some cs) (Some ss) 0 0 s =
     detect_loop env (Some (take 25 cs)) (Some (take 25 ss)) 0 0 s"
    by (simp only: detect_loop_take)
next
  assume "24 < length ss \<and> 0.4 < ss ! 24"
  then show "detect_loop env (Some cs) (Some ss) 24 count s =
      (Inr (count + 1), addLog env (found_msg (label_of (Number_at cs 24)) (Num (ss ! 24))) s)"
    by (simp add: detect_loop_Some hits_last_slot add_logs_Cons add_logs_Nil slot_msg_def)
next
  show "detect_loop env (Some cs) (Some ss) 25 count s = (Inr count, s)"
    by (simp add: detect_loop_Some hits_done add_logs_Nil)
qed

text \<open>
  Three scores: slot 3 reads NaN, the loop reports two detections and no error. And 25
  scores with 0.5 in slot 24: that slot is reported.
\<close>

theorem short_score_array_witness:
  "length [0.82, 0.3, 0.91 :: rat] < 25 \<and>
   length [0.82, 0.3, 0.91 :: rat] \<le> 3 \<and> Number_at [0.82, 0.3, 0.91 :: rat] 3 = NaN \<and>
   \<not> js_gt (Number_at [0.82, 0.3, 0.91] 3) 0.4 \<and>
   detect_loop example_env (Some [2, 5, 0]) (Some [0.82, 0.3, 0.91]) 3 2 initial = (Inr 2, initial) \<and>
   fst (detect_loop example_env (Some [2, 5, 0]) (Some [0.82, 0.3, 0.91]) 0 0 initial) = Inr 2 \<and>
   24 < length (replicate 24 0 @ [0.5 :: rat]) \<and> 0.4 < (replicate 24 0 @ [0.5 :: rat]) ! 24 \<and>
   fst (detect_loop example_env (Some []) (Some (replicate 24 0 @ [0.5])) 24 0 initial) = Inr 1"
proof -
  have h: "length [0.82, 0.3, 0.91 :: rat] < 25" and l: "length [0.82, 0.3, 0.91 :: rat] \<le> 3"
    by simp_all
  note th = short_score_array [of "[0.82, 0.3, 0.91]" example_env "[2, 5, 0]" 2 initial,
      THEN conjunct1, rule_format, OF h]
  have f: "filter (\<lambda>k. 0.4 < [0.82, 0.3, 0.91 :: rat] ! k) [0..<length [0.82, 0.3, 0.91 :: rat]] = [0, 2]"
    by code_simp
  have "Number_at [0.82, 0.3, 0.91 :: rat] 3 = NaN \<and> \<not> js_gt (Number_at [0.82, 0.3, 0.91] 3) 0.4"
    using th [THEN conjunct1, rule_format, OF l] .
  moreover have "detect_loop example_env (Some [2, 5, 0]) (Some [0.82, 0.3, 0.91]) 3 2 initial =
      (Inr 2, initial)"
    using th [THEN conjunct2, THEN conjunct1] by (simp add: numeral_3_eq_3)
  moreover have "fst (detect_loop example_env (Some [2, 5, 0]) (Some [0.82, 0.3, 0.91]) 0 0 initial) = Inr 2"
    using th [THEN conjunct2, THEN conjunct2] unfolding f by simp
  moreover have last: "24 < length (replicate 24 0 @ [0.5 :: rat]) \<and>
      0.4 < (replicate 24 0 @ [0.5 :: rat]) ! 24"
    by (simp add: nth_append)
  moreover have "fst (detect_loop example_env (Some []) (Some (replicate 24 0 @ [0.5])) 24 0 initial) = Inr 1"
    using short_score_array [of "replicate 24 0 @ [0.5]" example_env "[]" 0 initial,
        THEN conjunct2, THEN conjunct2, THEN conjunct1, rule_format, OF last]
    by simp
  ultimately show ?thesis
    using h l by blast
qed

end
